theory Spec2Isabelle
  imports Main "HOL-Library.AList" "HOL-Library.Sublist"
begin

section \<open>Data model of package env (src/env/conf.go)\<close>

text \<open>
  Modelled from the spec: the struct \<open>Env\<close> is declared in a file of the package that is
  not among the sources. conf.go reads and writes its fields \<open>Directory\<close> (compared
  with and assigned the string \<open>""\<close>) and \<open>Timeout\<close> (compared with and assigned the
  number \<open>0\<close>); the spec names the same two fields. No arithmetic is done on
  \<open>Timeout\<close>, so it is an unbounded integer here.
\<close>

record Env =
  Directory :: string
  Timeout :: int

text \<open>
  The error values of conf.go: its four sentinels (lines 19-26), \<open>os.ErrNotExist\<close>
  (line 172), the errors built with \<open>fmt.Errorf\<close> (lines 61, 65, 113), which carry
  their formatted message, and \<open>ExternalError\<close> for an error value produced outside
  this file (the operating system, the YAML encoder), carrying its message.
\<close>

datatype error =
    ErrEnvDoesNotExist
  | ErrEnvNotDefined
  | ErrNoEnvironmentsDefined
  | ErrInvalidEnvironmentName
  | ErrNotExist
  | Errorf string
  | ExternalError string

text \<open>The method \<open>Error()\<close>: the message of an error value.\<close>

fun Error :: "error \<Rightarrow> string" where
  "Error ErrEnvDoesNotExist = ''environment does not exist in this environments list''"
| "Error ErrEnvNotDefined = ''environment was found but not defined''"
| "Error ErrNoEnvironmentsDefined = ''no environments defined, nothing to write''"
| "Error ErrInvalidEnvironmentName = ''environment name cannot be blank''"
| "Error ErrNotExist = ''file does not exist''"
| "Error (Errorf msg) = msg"
| "Error (ExternalError msg) = msg"

text \<open>
  \<open>Conf\<close> (lines 30-34). \<open>Envs\<close> is a Go map from names to pointers: an association
  list with one pair per key, whose order stands for the order in which a \<open>range\<close>
  loop visits the keys (Go leaves that order open, so every order is a possible one),
  and whose values are \<open>None\<close> for a nil pointer and \<open>Some e\<close> for a pointer to \<open>e\<close>.
  Each pointer is taken to be owned by its entry alone. A nil map is the empty list:
  the functions modelled here only read a map that may be nil (lookup, \<open>range\<close>,
  \<open>len\<close>), and these behave on a nil map as on an empty one; \<open>save\<close> assigns and
  deletes only inside its loop over the entries, where the map is not nil.
\<close>

type_synonym envs = "(string \<times> Env option) list"

record Conf =
  Envs :: envs
  osEnv :: Env
  path :: string

definition supportedExts :: "string list" where
  "supportedExts = [''yml'', ''yaml'', ''json'']"


section \<open>Library functions used by conf.go\<close>

subsection \<open>strings.Join\<close>

fun strings_Join :: "string list \<Rightarrow> string \<Rightarrow> string" where
  "strings_Join [] sep = []"
| "strings_Join [x] sep = x"
| "strings_Join (x # y # ys) sep = x @ sep @ strings_Join (y # ys) sep"

subsection \<open>path/filepath on a system whose separator is the slash\<close>

text \<open>\<open>filepath.Ext\<close>: the suffix that starts at the last dot of the last path element.\<close>

fun ext_scan :: "string \<Rightarrow> string \<Rightarrow> string" where
  "ext_scan [] acc = []"
| "ext_scan (c # cs) acc =
     (if c = CHR ''/'' then []
      else if c = CHR ''.'' then c # acc
      else ext_scan cs (c # acc))"

definition filepath_Ext :: "string \<Rightarrow> string" where
  "filepath_Ext p = ext_scan (rev p) []"

text \<open>The elements of a path between its slashes.\<close>

fun path_elems :: "string \<Rightarrow> string list" where
  "path_elems [] = [[]]"
| "path_elems (c # cs) =
     (if c = CHR ''/'' then [] # path_elems cs
      else (case path_elems cs of
              [] \<Rightarrow> [[c]]
            | e # es \<Rightarrow> (c # e) # es))"

text \<open>
  \<open>filepath.Clean\<close>: empty elements and \<open>.\<close> are dropped, \<open>..\<close> removes the element
  before it, is dropped at the root and kept at the front of a relative path. The
  third argument is the output so far, last element first.
\<close>

fun clean_elems :: "bool \<Rightarrow> string list \<Rightarrow> string list \<Rightarrow> string list" where
  "clean_elems rooted [] out = rev out"
| "clean_elems rooted (e # es) out =
     (if e = [] \<or> e = ''.'' then clean_elems rooted es out
      else if e = ''..'' then
        (case out of
           [] \<Rightarrow> if rooted then clean_elems rooted es [] else clean_elems rooted es [''..'']
         | x # xs \<Rightarrow>
             if x = ''..'' then clean_elems rooted es (''..'' # out)
             else clean_elems rooted es xs)
      else clean_elems rooted es (e # out))"

definition filepath_Clean :: "string \<Rightarrow> string" where
  "filepath_Clean p =
     (case p of
        [] \<Rightarrow> ''.''
      | c # cs \<Rightarrow>
          (let rooted = (c = CHR ''/'');
               out = clean_elems rooted (path_elems p) []
           in if rooted then CHR ''/'' # strings_Join out ''/''
              else if out = [] then ''.''
              else strings_Join out ''/''))"

text \<open>\<open>filepath.Join\<close>: the elements from the first non-empty one on, joined and cleaned.\<close>

definition filepath_Join :: "string list \<Rightarrow> string" where
  "filepath_Join elem =
     (case dropWhile (\<lambda>e. e = []) elem of
        [] \<Rightarrow> []
      | es \<Rightarrow> filepath_Clean (strings_Join es ''/''))"

text \<open>\<open>filepath.Dir\<close>: all but the last element, cleaned.\<close>

definition filepath_Dir :: "string \<Rightarrow> string" where
  "filepath_Dir p = filepath_Clean (rev (dropWhile (\<lambda>c. c \<noteq> CHR ''/'') (rev p)))"

text \<open>\<open>filepath.Base\<close>: the last element, after trailing slashes are removed.\<close>

definition filepath_Base :: "string \<Rightarrow> string" where
  "filepath_Base p =
     (if p = [] then ''.''
      else
        (let stripped = dropWhile (\<lambda>c. c = CHR ''/'') (rev p);
             elem = rev (takeWhile (\<lambda>c. c \<noteq> CHR ''/'') stripped)
         in if elem = [] then ''/'' else elem))"


section \<open>Path resolution (conf.go, lines 162-173)\<close>

text \<open>
  \<open>os.Stat\<close> is a parameter \<open>stat\<close>: the error it returns for a path, \<open>None\<close> for
  \<open>err == nil\<close>. The loop over \<open>supportedExts\<close> is the recursion of \<open>search_exts\<close>;
  its result is the found path and its extension, or the error of line 172.
\<close>

fun search_exts ::
  "(string \<Rightarrow> error option) \<Rightarrow> string \<Rightarrow> string \<Rightarrow> string \<Rightarrow> string list
     \<Rightarrow> error + (string \<times> string)" where
  "search_exts stat dir name filename [] = Inl ErrNotExist"
| "search_exts stat dir name filename (ext # exts) =
     (let foundPath = filepath_Join [dir, name @ ''.'' @ ext]
      in if stat foundPath = None \<and> ''.'' @ ext = filepath_Ext filename
         then Inr (foundPath, ext)
         else search_exts stat dir name filename exts)"

definition searchConfigPath ::
  "(string \<Rightarrow> error option) \<Rightarrow> string \<Rightarrow> error + (string \<times> string)" where
  "searchConfigPath stat configPath =
     (let dir = filepath_Dir configPath;
          filename = filepath_Base configPath;
          name = take (length filename - length (filepath_Ext filename)) filename
      in search_exts stat dir name filename supportedExts)"


section \<open>The merge of environments\<close>

text \<open>
  Modelled from the spec: \<open>newEnv\<close>, which conf.go calls at lines 80 and 96, and the
  package-level variable \<open>Default\<close>, read at lines 136 and 139, are declared in a file
  of the package that is not among the sources. \<open>Default\<close> is the parameter \<open>dflt\<close>
  everywhere. \<open>newEnv\<close> follows section 4.1 of the spec: an empty name is refused; the
  overrides are applied to the base in argument order, a field of an override that
  differs from the zero value of its type replacing the accumulated one; a field
  that is still zero at the end is filled from \<open>Default\<close>. The result is the pair of
  Go: the pointer (\<open>None\<close> for nil) and the error (\<open>None\<close> for nil).
\<close>

definition overrideEnv :: "Env \<Rightarrow> Env \<Rightarrow> Env" where
  "overrideEnv acc ov =
     \<lparr>Directory = (if Directory ov \<noteq> [] then Directory ov else Directory acc),
      Timeout = (if Timeout ov \<noteq> 0 then Timeout ov else Timeout acc)\<rparr>"

definition fillDefaults :: "Env \<Rightarrow> Env \<Rightarrow> Env" where
  "fillDefaults dflt e =
     \<lparr>Directory = (if Directory e = [] then Directory dflt else Directory e),
      Timeout = (if Timeout e = 0 then Timeout dflt else Timeout e)\<rparr>"

definition newEnv :: "Env \<Rightarrow> string \<Rightarrow> Env \<Rightarrow> Env list \<Rightarrow> Env option \<times> error option" where
  "newEnv dflt name initial overrides =
     (if name = [] then (None, Some ErrInvalidEnvironmentName)
      else (Some (fillDefaults dflt (foldl overrideEnv initial overrides)), None))"

text \<open>
  The precedence rule in the words of the spec's testable property 1, for one field
  with zero value \<open>z\<close>: the value of the last override that set the field, scanning
  from the last to the first; else the base's value if set; else the default's.
\<close>

definition precedence :: "'a \<Rightarrow> 'a \<Rightarrow> 'a \<Rightarrow> 'a list \<Rightarrow> 'a" where
  "precedence z d b ovs =
     (case filter (\<lambda>v. v \<noteq> z) (rev ovs) of
        v # _ \<Rightarrow> v
      | [] \<Rightarrow> if b \<noteq> z then b else d)"


section \<open>The store (conf.go, lines 36-117)\<close>

text \<open>
  \<open>New\<close> (lines 37-45). \<open>env.Parse\<close> fills \<open>osEnv\<close> from the variables of the process
  environment and its error is dropped; what it leaves in \<open>osEnv\<close> is the parameter
  \<open>penv\<close>.
\<close>

definition New :: "Env \<Rightarrow> string \<Rightarrow> Conf" where
  "New penv configPath = \<lparr>Envs = [], osEnv = penv, path = configPath\<rparr>"

text \<open>
  \<open>Conf.validate\<close> (lines 99-117). \<open>Env.validate\<close> is not among the sources: it is the
  parameter \<open>env_validate\<close>. The loop appends to \<open>errors\<close> in the order of the visit.
\<close>

fun validate_loop :: "(Env \<Rightarrow> error option) \<Rightarrow> envs \<Rightarrow> string list \<Rightarrow> string list" where
  "validate_loop env_validate [] errors = errors"
| "validate_loop env_validate ((name, env) # rest) errors =
     (case env of
        None \<Rightarrow> validate_loop env_validate rest errors
      | Some e \<Rightarrow>
          (case env_validate e of
             None \<Rightarrow> validate_loop env_validate rest errors
           | Some err \<Rightarrow> validate_loop env_validate rest (errors @ [Error err])))"

definition validate :: "(Env \<Rightarrow> error option) \<Rightarrow> Conf \<Rightarrow> error option" where
  "validate env_validate c =
     (let errors = validate_loop env_validate (Envs c) []
      in if length errors > 0
         then Some (Errorf (''invalid config '' @ strings_Join errors '',''))
         else None)"

text \<open>
  \<open>Conf.Get\<close> (lines 89-97) has a pointer receiver: it returns the store after the
  call, then the pair of Go.
\<close>

definition Get ::
  "Env \<Rightarrow> Conf \<Rightarrow> string \<Rightarrow> Env list \<Rightarrow> Conf \<times> Env option \<times> error option" where
  "Get dflt c name overrides =
     (case map_of (Envs c) name of
        None \<Rightarrow> (c, None, Some ErrEnvDoesNotExist)
      | Some None \<Rightarrow> (c, None, Some ErrEnvNotDefined)
      | Some (Some env) \<Rightarrow> (c, newEnv dflt name env ([osEnv c] @ overrides)))"


section \<open>Saving (conf.go, lines 119-160)\<close>

text \<open>
  The loop of \<open>Conf.save\<close> (lines 131-143) visits the entries the map had at the start
  (only the key being visited is deleted) and works on the map itself: the second
  argument is the entries still to visit, the third the map.
\<close>

fun save_loop :: "Env \<Rightarrow> envs \<Rightarrow> envs \<Rightarrow> envs" where
  "save_loop dflt [] m = m"
| "save_loop dflt ((name, env) # rest) m =
     (case env of
        None \<Rightarrow> save_loop dflt rest (AList.delete name m)
      | Some e \<Rightarrow>
          (let e1 = (if Directory e = Directory dflt then e\<lparr>Directory := []\<rparr> else e);
               e2 = (if Timeout e1 = Timeout dflt then e1\<lparr>Timeout := 0\<rparr> else e1)
           in save_loop dflt rest (AList.update name (Some e2) m)))"

text \<open>
  \<open>Conf.save\<close> (lines 129-156). The receiver is a copy of the store, but its \<open>Envs\<close> is
  the caller's map and its values are the caller's pointers: the first component of
  the result is the caller's store after the call. \<open>yaml.Marshal\<close> is the parameter
  \<open>yaml_Marshal\<close>, returning the message of its error or the bytes; the writer is a
  state \<open>w\<close> with the parameter \<open>write\<close>, returning the writer after the call and the
  message of its error, if any.
\<close>

definition save ::
  "Env \<Rightarrow> (envs \<Rightarrow> string + string) \<Rightarrow> (string \<Rightarrow> 'w \<Rightarrow> 'w \<times> string option)
     \<Rightarrow> Conf \<Rightarrow> 'w \<Rightarrow> Conf \<times> 'w \<times> error option" where
  "save dflt yaml_Marshal write c w =
     (let c' = c\<lparr>Envs := save_loop dflt (Envs c) (Envs c)\<rparr>
      in if length (Envs c') = 0 then (c', w, Some ErrNoEnvironmentsDefined)
         else
           (case yaml_Marshal (Envs c') of
              Inl msg \<Rightarrow> (c', w, Some (ExternalError msg))
            | Inr bytes \<Rightarrow>
                (case write bytes w of
                   (w', err) \<Rightarrow> (c', w', map_option ExternalError err))))"

text \<open>
  \<open>Conf.Save\<close> with \<open>Conf.file\<close> (lines 120-127, 158-160). The operating system is a
  state \<open>fs\<close> with three parameters: \<open>openFile\<close> is \<open>os.OpenFile\<close> with the flags of line
  159 (write only, create, truncate), returning the state after the call and the
  message of its error or the handle; \<open>write\<close> is \<open>Write\<close> on the handle; \<open>closeFile\<close> is
  the deferred \<open>Close\<close>, whose error is dropped. The file is opened first, and closed
  on every path after that.
\<close>

definition Save ::
  "Env \<Rightarrow> (envs \<Rightarrow> string + string) \<Rightarrow> ('fs \<Rightarrow> string \<Rightarrow> 'fs \<times> (string + 'h))
     \<Rightarrow> ('h \<Rightarrow> string \<Rightarrow> 'fs \<Rightarrow> 'fs \<times> string option) \<Rightarrow> ('h \<Rightarrow> 'fs \<Rightarrow> 'fs)
     \<Rightarrow> Conf \<Rightarrow> 'fs \<Rightarrow> Conf \<times> 'fs \<times> error option" where
  "Save dflt yaml_Marshal openFile write closeFile c fs =
     (case openFile fs (path c) of
        (fs1, Inl msg) \<Rightarrow> (c, fs1, Some (ExternalError msg))
      | (fs1, Inr f) \<Rightarrow>
          (case save dflt yaml_Marshal (write f) c fs1 of
             (c', fs2, err) \<Rightarrow> (c', closeFile f fs2, err)))"


section \<open>Loading (conf.go, lines 49-71)\<close>

text \<open>
  \<open>ioutil.ReadFile\<close> is the parameter \<open>readFile\<close>. The decoders \<open>yaml.Unmarshal\<close> and
  \<open>json.Unmarshal\<close> are the parameters \<open>yaml_Unmarshal\<close> and \<open>json_Unmarshal\<close>: from the
  bytes and the map they decode into, the map after the call and the message of
  their error, if any.
\<close>

definition Load ::
  "Env \<Rightarrow> (string \<Rightarrow> error option) \<Rightarrow> (string \<Rightarrow> error + string)
     \<Rightarrow> (string \<Rightarrow> envs \<Rightarrow> envs \<times> string option)
     \<Rightarrow> (string \<Rightarrow> envs \<Rightarrow> envs \<times> string option)
     \<Rightarrow> (Env \<Rightarrow> error option) \<Rightarrow> string \<Rightarrow> Conf \<times> error option" where
  "Load penv stat readFile yaml_Unmarshal json_Unmarshal env_validate configPath =
     (let conf = New penv configPath
      in case searchConfigPath stat configPath of
           Inl err \<Rightarrow> (conf, Some err)
         | Inr (fpath, ext) \<Rightarrow>
             (case readFile fpath of
                Inr contents \<Rightarrow>
                  if ext = ''yml'' \<or> ext = ''yaml'' then
                    (case yaml_Unmarshal contents (Envs conf) of
                       (m, Some msg) \<Rightarrow>
                         (conf\<lparr>Envs := m\<rparr>,
                          Some (Errorf (''Invalid yaml found while loading the config file: '' @ msg)))
                     | (m, None) \<Rightarrow>
                         (conf\<lparr>Envs := m\<rparr>, validate env_validate (conf\<lparr>Envs := m\<rparr>)))
                  else if ext = ''json'' then
                    (case json_Unmarshal contents (Envs conf) of
                       (m, Some msg) \<Rightarrow>
                         (conf\<lparr>Envs := m\<rparr>,
                          Some (Errorf (''Invalid json found while loading the config file: '' @ msg)))
                     | (m, None) \<Rightarrow>
                         (conf\<lparr>Envs := m\<rparr>, validate env_validate (conf\<lparr>Envs := m\<rparr>)))
                  else (conf, validate env_validate conf)
              | Inl err \<Rightarrow> (conf, validate env_validate conf)))"


section \<open>Notions used to state the properties\<close>

text \<open>
  The candidate path that lines 163-167 build for an extension: the directory of the
  configured path, joined with its file name without extension, a dot and the
  extension.
\<close>

definition candidate :: "string \<Rightarrow> string \<Rightarrow> string" where
  "candidate configPath ext =
     filepath_Join [filepath_Dir configPath,
       take (length (filepath_Base configPath) - length (filepath_Ext (filepath_Base configPath)))
         (filepath_Base configPath) @ ''.'' @ ext]"

text \<open>
  The messages of the entries that fail the validation of \<open>Env\<close>, in the order of the
  entries; nil entries contribute nothing.
\<close>

definition failures :: "(Env \<Rightarrow> error option) \<Rightarrow> envs \<Rightarrow> string list" where
  "failures env_validate m =
     concat (map (\<lambda>(name, env).
        case env of
          None \<Rightarrow> []
        | Some e \<Rightarrow> (case env_validate e of None \<Rightarrow> [] | Some err \<Rightarrow> [Error err])) m)"

text \<open>
  Default suppression on one \<open>Env\<close>, and the map after the pre-write pass in the words
  of section 4.8 of the spec: the nil entries are gone, every other entry has each
  field that equals the default's reset to the zero value.
\<close>

definition suppressDefaults :: "Env \<Rightarrow> Env \<Rightarrow> Env" where
  "suppressDefaults dflt e =
     \<lparr>Directory = (if Directory e = Directory dflt then [] else Directory e),
      Timeout = (if Timeout e = Timeout dflt then 0 else Timeout e)\<rparr>"

definition cleaned :: "Env \<Rightarrow> envs \<Rightarrow> envs" where
  "cleaned dflt m =
     map (\<lambda>(name, env). (name, map_option (suppressDefaults dflt) env))
       (filter (\<lambda>(name, env). env \<noteq> None) m)"

subsection \<open>A disk for the examples\<close>

text \<open>
  A disk without symbolic links, on which every access is permitted and which is
  never full. It holds regular files with their contents and directories, each under
  its cleaned path from the working directory (or from the root, with a leading
  slash). The working directory, the root and the directories above the working
  directory always exist and are not entries of the disk.
\<close>

datatype node = RegularFile string | DirectoryNode

type_synonym files = "string \<rightharpoonup> node"

text \<open>
  The place reached from the working directory (or from the root, when \<open>rooted\<close>)
  is a list of elements, last first; \<open>node_key\<close> is the path the disk holds it under.
\<close>

definition node_key :: "bool \<Rightarrow> string list \<Rightarrow> string" where
  "node_key rooted out =
     (if rooted then CHR ''/'' # strings_Join (rev out) ''/''
      else if out = [] then ''.''
      else strings_Join (rev out) ''/'')"

definition node_at :: "files \<Rightarrow> bool \<Rightarrow> string list \<Rightarrow> node option" where
  "node_at fs rooted out =
     (if list_all (\<lambda>e. e = ''..'') out then Some DirectoryNode
      else fs (node_key rooted out))"

text \<open>
  The walk of the operating system along the elements of a path: every element,
  also an empty one and \<open>.\<close>, is looked up in the place reached so far, which must
  be a directory; \<open>..\<close> leads to the directory above, and stays at the root.
\<close>

fun walk :: "files \<Rightarrow> bool \<Rightarrow> string list \<Rightarrow> string list \<Rightarrow> error + string list" where
  "walk fs rooted [] out = Inr out"
| "walk fs rooted (e # es) out =
     (case node_at fs rooted out of
        None \<Rightarrow> Inl ErrNotExist
      | Some (RegularFile contents) \<Rightarrow> Inl (ExternalError ''not a directory'')
      | Some DirectoryNode \<Rightarrow>
          if e = [] \<or> e = ''.'' then walk fs rooted es out
          else if e = ''..'' then
            (case out of
               [] \<Rightarrow> if rooted then walk fs rooted es [] else walk fs rooted es [''..'']
             | x # xs \<Rightarrow>
                 if x = ''..'' then walk fs rooted es (''..'' # out)
                 else walk fs rooted es xs)
          else walk fs rooted es (e # out))"

text \<open>
  What a path names: the error of the walk (the empty path names nothing), or the
  path the disk holds the place under, with the node there, if any.
\<close>

definition lookup_path :: "files \<Rightarrow> string \<Rightarrow> error + (string \<times> node option)" where
  "lookup_path fs p =
     (case p of
        [] \<Rightarrow> Inl ErrNotExist
      | c # cs \<Rightarrow>
          (case walk fs (c = CHR ''/'') (path_elems p) [] of
             Inl err \<Rightarrow> Inl err
           | Inr out \<Rightarrow> Inr (node_key (c = CHR ''/'') out, node_at fs (c = CHR ''/'') out)))"

text \<open>
  \<open>os.Stat\<close> succeeds on a file and on a directory. \<open>ioutil.ReadFile\<close> fails on a
  directory with an error that is not \<open>os.ErrNotExist\<close>. \<open>os.OpenFile\<close> with the flags
  of line 159 fails when the path names nothing that can be created or names a
  directory; otherwise the file exists and is empty afterwards, and the handle is the
  path the disk holds it under. \<open>Write\<close> on the handle appends; \<open>Close\<close> changes
  nothing on the disk.
\<close>

definition os_Stat :: "files \<Rightarrow> string \<Rightarrow> error option" where
  "os_Stat fs p =
     (case lookup_path fs p of
        Inl err \<Rightarrow> Some err
      | Inr (key, None) \<Rightarrow> Some ErrNotExist
      | Inr (key, Some n) \<Rightarrow> None)"

definition ioutil_ReadFile :: "files \<Rightarrow> string \<Rightarrow> error + string" where
  "ioutil_ReadFile fs p =
     (case lookup_path fs p of
        Inl err \<Rightarrow> Inl err
      | Inr (key, None) \<Rightarrow> Inl ErrNotExist
      | Inr (key, Some DirectoryNode) \<Rightarrow>
          Inl (ExternalError (''read '' @ p @ '': is a directory''))
      | Inr (key, Some (RegularFile contents)) \<Rightarrow> Inr contents)"

definition os_OpenFile :: "files \<Rightarrow> string \<Rightarrow> files \<times> (string + string)" where
  "os_OpenFile fs p =
     (case lookup_path fs p of
        Inl err \<Rightarrow> (fs, Inl (''open '' @ p @ '': '' @ Error err))
      | Inr (key, Some DirectoryNode) \<Rightarrow> (fs, Inl (''open '' @ p @ '': is a directory''))
      | Inr (key, _) \<Rightarrow> (fs(key \<mapsto> RegularFile []), Inr key))"

definition file_Write :: "string \<Rightarrow> string \<Rightarrow> files \<Rightarrow> files \<times> string option" where
  "file_Write f bytes fs =
     (case fs f of
        Some (RegularFile old) \<Rightarrow> (fs(f \<mapsto> RegularFile (old @ bytes)), None)
      | _ \<Rightarrow> (fs, Some (''write '' @ f @ '': bad file descriptor'')))"

definition file_Close :: "string \<Rightarrow> files \<Rightarrow> files" where
  "file_Close f fs = fs"

subsection \<open>Values for the examples\<close>

definition example_default :: Env where
  "example_default = \<lparr>Directory = ''/home/dev/theme'', Timeout = 30\<rparr>"

definition example_validate :: "Env \<Rightarrow> error option" where
  "example_validate e =
     (if Directory e = [] then Some (ExternalError ''missing directory'')
      else if Timeout e < 0 then Some (ExternalError ''negative timeout'')
      else None)"


definition example_store :: Conf where
  "example_store =
     \<lparr>Envs = [(''production'', Some \<lparr>Directory = ''/srv/shop'', Timeout = 0\<rparr>),
              (''staging'', None),
              (''development'', Some \<lparr>Directory = ''/home/dev/theme'', Timeout = 30\<rparr>)],
      osEnv = \<lparr>Directory = [], Timeout = 10\<rparr>,
      path = ''config.yml''\<rparr>"

definition example_files :: files where
  "example_files = [''app.yaml'' \<mapsto> RegularFile ''a: {}'', ''app.json'' \<mapsto> RegularFile ''{}'']"

text \<open>
  A disk with one configuration file, and a store whose only entry is nil.
\<close>

definition example_disk :: files where
  "example_disk = [''config.yml'' \<mapsto> RegularFile ''{production: {directory: /srv/shop}}'']"

definition example_nil_store :: Conf where
  "example_nil_store =
     \<lparr>Envs = [(''production'', None)],
      osEnv = \<lparr>Directory = [], Timeout = 0\<rparr>,
      path = ''config.yml''\<rparr>"

text \<open>
  An encoder and two decoders for the examples. The encoder knows the bytes of the map
  that saving \<open>example_store\<close> encodes; the YAML decoder reads those bytes back into the
  map it is given; the JSON decoder reads the empty object and refuses every other
  text of the examples, none of which is JSON.
\<close>

definition example_yaml :: string where
  "example_yaml = ''{production: {directory: /srv/shop}, development: {}}''"

definition example_Marshal :: "envs \<Rightarrow> string + string" where
  "example_Marshal m =
     (if m = [(''production'', Some \<lparr>Directory = ''/srv/shop'', Timeout = 0\<rparr>),
              (''development'', Some \<lparr>Directory = [], Timeout = 0\<rparr>)]
      then Inr example_yaml
      else Inl ''unsupported value'')"

definition example_yaml_Unmarshal :: "string \<Rightarrow> envs \<Rightarrow> envs \<times> string option" where
  "example_yaml_Unmarshal bytes m =
     (if bytes = example_yaml
      then (AList.update ''development'' (Some \<lparr>Directory = [], Timeout = 0\<rparr>)
              (AList.update ''production'' (Some \<lparr>Directory = ''/srv/shop'', Timeout = 0\<rparr>) m),
            None)
      else (m, Some ''cannot unmarshal''))"

definition example_json_Unmarshal :: "string \<Rightarrow> envs \<Rightarrow> envs \<times> string option" where
  "example_json_Unmarshal bytes m =
     (if bytes = ''{}'' then (m, None)
      else (m, Some ''invalid character''))"

text \<open>
  A disk on which the configured path is a directory, and a file that \<open>os.Stat\<close> finds
  and that is gone when it is read.
\<close>

definition example_dir_disk :: files where
  "example_dir_disk = [''config.yml'' \<mapsto> DirectoryNode]"

definition example_stat_found :: "string \<Rightarrow> error option" where
  "example_stat_found p = None"

definition example_read_gone :: "string \<Rightarrow> error + string" where
  "example_read_gone p = Inl ErrNotExist"

text \<open>A writer that appends to a buffer of bytes and never fails.\<close>

definition buffer_Write :: "string \<Rightarrow> string \<Rightarrow> string \<times> string option" where
  "buffer_Write bytes buf = (buf @ bytes, None)"



section \<open>The disk of the examples\<close>

lemma path_elems_simple: "CHR ''/'' \<notin> set p \<Longrightarrow> path_elems p = [p]"
  by (induction p) auto

lemma walk_simple:
  assumes "p \<noteq> []" and "p \<noteq> ''.''" and "p \<noteq> ''..''"
  shows "walk fs False [p] [] = Inr [p]"
    and "walk fs False [''.'', p] [] = Inr [p]"
    and "node_key False [p] = p"
    and "node_at fs False [p] = fs p"
proof -
  have top: "node_at fs False [] = Some DirectoryNode"
    by (simp add: node_at_def)
  show "walk fs False [p] [] = Inr [p]"
    using assms by (simp add: top)
  show "walk fs False [''.'', p] [] = Inr [p]"
    using assms by (simp add: top)
  show "node_key False [p] = p"
    by (simp add: node_key_def)
  show "node_at fs False [p] = fs p"
    using assms(3) by (simp add: node_at_def node_key_def)
qed

lemma lookup_path_relative:
  assumes "c \<noteq> CHR ''/''"
  shows "lookup_path fs (c # cs) =
     (case walk fs False (path_elems (c # cs)) [] of
        Inl err \<Rightarrow> Inl err
      | Inr out \<Rightarrow> Inr (node_key False out, node_at fs False out))"
  using assms by (simp only: lookup_path_def list.case simp_thms)

lemma lookup_path_simple:
  assumes "CHR ''/'' \<notin> set p" and "p \<noteq> []" and "p \<noteq> ''.''" and "p \<noteq> ''..''"
  shows "lookup_path fs p = Inr (p, fs p)"
proof -
  from assms(1,2) obtain c cs where p: "p = c # cs" and c: "c \<noteq> CHR ''/''"
    by (cases p) auto
  have "lookup_path fs p =
     (case walk fs False (path_elems p) [] of
        Inl err \<Rightarrow> Inl err
      | Inr out \<Rightarrow> Inr (node_key False out, node_at fs False out))"
    unfolding p using c by (rule lookup_path_relative)
  then show ?thesis
    by (simp only: path_elems_simple [OF assms(1)] walk_simple [OF assms(2,3,4)] sum.case)
qed


section \<open>Path resolution\<close>

lemma search_exts_Cons:
  "search_exts stat dir name filename (x # exts) =
     (if stat (filepath_Join [dir, name @ ''.'' @ x]) = None \<and> ''.'' @ x = filepath_Ext filename
      then Inr (filepath_Join [dir, name @ ''.'' @ x], x)
      else search_exts stat dir name filename exts)"
  by (simp only: search_exts.simps Let_def)

declare search_exts.simps(2) [simp del]

lemma search_exts_Inr_iff:
  "search_exts stat dir name filename exts = Inr (fp, ext) \<longleftrightarrow>
     ext \<in> set exts \<and> fp = filepath_Join [dir, name @ ''.'' @ ext] \<and>
     stat fp = None \<and> ''.'' @ ext = filepath_Ext filename"
proof (induction exts)
  case Nil
  show ?case by simp
next
  case (Cons x exts)
  let ?cand = "filepath_Join [dir, name @ ''.'' @ x]"
  show ?case
  proof (cases "stat ?cand = None \<and> ''.'' @ x = filepath_Ext filename")
    case True
    have res: "search_exts stat dir name filename (x # exts) = Inr (?cand, x)"
      unfolding search_exts_Cons using True by (rule if_P)
    show ?thesis
    proof
      assume "search_exts stat dir name filename (x # exts) = Inr (fp, ext)"
      with res have "Inr (?cand, x) = (Inr (fp, ext) :: error + (string \<times> string))"
        by (rule trans [OF sym])
      then have "fp = ?cand" "ext = x" by auto
      with True show "ext \<in> set (x # exts) \<and> fp = filepath_Join [dir, name @ ''.'' @ ext] \<and>
        stat fp = None \<and> ''.'' @ ext = filepath_Ext filename"
        by (metis list.set_intros(1))
    next
      assume a: "ext \<in> set (x # exts) \<and> fp = filepath_Join [dir, name @ ''.'' @ ext] \<and>
        stat fp = None \<and> ''.'' @ ext = filepath_Ext filename"
      with True have "''.'' @ ext = ''.'' @ x" by metis
      then have "ext = x" by simp
      with a res show "search_exts stat dir name filename (x # exts) = Inr (fp, ext)"
        by metis
    qed
  next
    case False
    have res: "search_exts stat dir name filename (x # exts) =
        search_exts stat dir name filename exts"
      unfolding search_exts_Cons using False by (rule if_not_P)
    from False have "ext \<noteq> x" if "fp = filepath_Join [dir, name @ ''.'' @ ext]"
        "stat fp = None" "''.'' @ ext = filepath_Ext filename"
      using that by blast
    then show ?thesis unfolding res Cons.IH by auto
  qed
qed

lemma search_exts_cases:
  "search_exts stat dir name filename exts = Inl ErrNotExist \<or>
   (\<exists>fp ext. search_exts stat dir name filename exts = Inr (fp, ext))"
  by (induction exts) (auto simp: search_exts_Cons)

lemma searchConfigPath_Inr_iff:
  "searchConfigPath stat p = Inr (fp, ext) \<longleftrightarrow>
     ext \<in> set supportedExts \<and> fp = candidate p ext \<and> stat fp = None \<and>
     ''.'' @ ext = filepath_Ext (filepath_Base p)"
  unfolding searchConfigPath_def candidate_def Let_def by (rule search_exts_Inr_iff)

lemma searchConfigPath_cases:
  "searchConfigPath stat p = Inl ErrNotExist \<or>
   (\<exists>fp ext. searchConfigPath stat p = Inr (fp, ext))"
  unfolding searchConfigPath_def Let_def by (rule search_exts_cases)

text \<open>
  C7. Resolution returns a path and an extension exactly when the extension is one of
  yml, yaml, json, the path is the candidate built for it, \<open>os.Stat\<close> finds the
  candidate, and the extension of the file name of the input path is the dot and that
  extension. When no supported extension has both, the result is \<open>os.ErrNotExist\<close>.
  With app.yaml and app.json both on disk, app.json resolves to app.json with format
  json.
\<close>

theorem searchConfigPath_strict:
  "(searchConfigPath stat p = Inr (fp, ext) \<longleftrightarrow>
      ext \<in> set supportedExts \<and> fp = candidate p ext \<and> stat fp = None \<and>
      ''.'' @ ext = filepath_Ext (filepath_Base p))
   \<and> supportedExts = [''yml'', ''yaml'', ''json'']
   \<and> (\<not> (\<exists>e \<in> set supportedExts.
            stat (candidate p e) = None \<and> ''.'' @ e = filepath_Ext (filepath_Base p)) \<longrightarrow>
        searchConfigPath stat p = Inl ErrNotExist)
   \<and> (stat ''app.yaml'' = None \<and> stat ''app.json'' = None \<longrightarrow>
        searchConfigPath stat ''app.json'' = Inr (''app.json'', ''json''))"
proof (intro conjI)
  show "searchConfigPath stat p = Inr (fp, ext) \<longleftrightarrow>
      ext \<in> set supportedExts \<and> fp = candidate p ext \<and> stat fp = None \<and>
      ''.'' @ ext = filepath_Ext (filepath_Base p)"
    by (rule searchConfigPath_Inr_iff)
next
  show "supportedExts = [''yml'', ''yaml'', ''json'']"
    by (rule supportedExts_def)
next
  show "\<not> (\<exists>e \<in> set supportedExts.
            stat (candidate p e) = None \<and> ''.'' @ e = filepath_Ext (filepath_Base p)) \<longrightarrow>
        searchConfigPath stat p = Inl ErrNotExist"
  proof
    assume none: "\<not> (\<exists>e \<in> set supportedExts.
            stat (candidate p e) = None \<and> ''.'' @ e = filepath_Ext (filepath_Base p))"
    have "searchConfigPath stat p \<noteq> Inr (fp', ext')" for fp' ext'
    proof
      assume "searchConfigPath stat p = Inr (fp', ext')"
      then have "ext' \<in> set supportedExts \<and> fp' = candidate p ext' \<and> stat fp' = None \<and>
          ''.'' @ ext' = filepath_Ext (filepath_Base p)"
        by (rule iffD1 [OF searchConfigPath_Inr_iff])
      with none show False by blast
    qed
    with searchConfigPath_cases [of stat p]
    show "searchConfigPath stat p = Inl ErrNotExist" by blast
  qed
next
  have "filepath_Base ''app.json'' = ''app.json''" by (simp add: filepath_Base_def)
  moreover have "filepath_Ext ''app.json'' = ''.json''" by (simp add: filepath_Ext_def)
  moreover have "filepath_Dir ''app.json'' = ''.''"
    by (simp add: filepath_Dir_def filepath_Clean_def)
  moreover have "filepath_Join [''.'', ''app.json''] = ''app.json''"
    by (simp add: filepath_Join_def filepath_Clean_def)
  ultimately show "stat ''app.yaml'' = None \<and> stat ''app.json'' = None \<longrightarrow>
        searchConfigPath stat ''app.json'' = Inr (''app.json'', ''json'')"
    by (simp add: searchConfigPath_def supportedExts_def search_exts_Cons)
qed

theorem searchConfigPath_strict_witness:
  "searchConfigPath (os_Stat example_files) ''app.json'' = Inr (''app.json'', ''json'')
   \<and> searchConfigPath (os_Stat example_files) ''app.yml'' = Inl ErrNotExist"
proof -
  have dir: "filepath_Dir ''app.yml'' = ''.''"
    by (simp add: filepath_Dir_def filepath_Clean_def)
  have base: "filepath_Base ''app.yml'' = ''app.yml''" by (simp add: filepath_Base_def)
  have ext: "filepath_Ext ''app.yml'' = ''.yml''" by (simp add: filepath_Ext_def)
  have cand: "candidate ''app.yml'' ''yml'' = ''app.yml''"
    by (simp add: candidate_def dir base ext filepath_Join_def filepath_Clean_def)
  have "searchConfigPath (os_Stat example_files) ''app.json'' = Inr (''app.json'', ''json'')"
    using searchConfigPath_strict [where stat = "os_Stat example_files" and p = "''app.json''"
        and fp = "''app.json''" and ext = "''json''"]
    by (simp add: os_Stat_def lookup_path_simple example_files_def)
  moreover have "searchConfigPath (os_Stat example_files) ''app.yml'' = Inl ErrNotExist"
    using searchConfigPath_strict [where stat = "os_Stat example_files" and p = "''app.yml''"
        and fp = "''app.yml''" and ext = "''yml''"]
    by (simp add: os_Stat_def lookup_path_simple example_files_def supportedExts_def base ext cand)
  ultimately show ?thesis by simp
qed


section \<open>The merge\<close>

lemma foldl_override_Directory:
  "Directory (foldl overrideEnv b ovs) =
     (case filter (\<lambda>v. v \<noteq> []) (rev (map Directory ovs)) of
        v # _ \<Rightarrow> v
      | [] \<Rightarrow> Directory b)"
  by (induction ovs rule: rev_induct) (simp_all add: overrideEnv_def)

lemma foldl_override_Timeout:
  "Timeout (foldl overrideEnv b ovs) =
     (case filter (\<lambda>v. v \<noteq> 0) (rev (map Timeout ovs)) of
        v # _ \<Rightarrow> v
      | [] \<Rightarrow> Timeout b)"
  by (induction ovs rule: rev_induct) (simp_all add: overrideEnv_def)

lemma filter_head_set: "filter (\<lambda>v. v \<noteq> z) xs = v # vs \<Longrightarrow> v \<noteq> z"
proof -
  assume "filter (\<lambda>v. v \<noteq> z) xs = v # vs"
  then have "v \<in> set (filter (\<lambda>v. v \<noteq> z) xs)" by simp
  then show "v \<noteq> z" by simp
qed

lemma merged_Directory:
  "Directory (fillDefaults dflt (foldl overrideEnv b ovs)) =
     precedence [] (Directory dflt) (Directory b) (map Directory ovs)"
  by (auto simp: fillDefaults_def foldl_override_Directory precedence_def
      split: list.splits dest: filter_head_set)

lemma merged_Timeout:
  "Timeout (fillDefaults dflt (foldl overrideEnv b ovs)) =
     precedence 0 (Timeout dflt) (Timeout b) (map Timeout ovs)"
  by (auto simp: fillDefaults_def foldl_override_Timeout precedence_def
      split: list.splits dest: filter_head_set)

lemma foldl_override_keeps_Timeout:
  "Timeout b \<noteq> 0 \<Longrightarrow> Timeout (foldl overrideEnv b ovs) \<noteq> 0"
  by (induction ovs rule: rev_induct) (simp_all add: overrideEnv_def)

lemma foldl_override_keeps_Directory:
  "Directory b \<noteq> [] \<Longrightarrow> Directory (foldl overrideEnv b ovs) \<noteq> []"
  by (induction ovs rule: rev_induct) (simp_all add: overrideEnv_def)

text \<open>
  C3. For a non-empty name, every base, every sequence of overrides and each field, the
  Env that the merge returns has the field of the last override that set it; if no
  override set it, the base's if the base set it; otherwise the default's.
\<close>

theorem newEnv_precedence:
  assumes "name \<noteq> []"
  shows "\<exists>e. newEnv dflt name b ovs = (Some e, None) \<and>
           Directory e = precedence [] (Directory dflt) (Directory b) (map Directory ovs) \<and>
           Timeout e = precedence 0 (Timeout dflt) (Timeout b) (map Timeout ovs)"
  using assms by (simp add: newEnv_def merged_Directory merged_Timeout)

theorem newEnv_precedence_witness:
  "''production'' \<noteq> [] \<and>
   newEnv example_default ''production'' \<lparr>Directory = ''/srv/shop'', Timeout = 0\<rparr>
     [\<lparr>Directory = [], Timeout = 10\<rparr>, \<lparr>Directory = ''/tmp/shop'', Timeout = 0\<rparr>,
      \<lparr>Directory = [], Timeout = 0\<rparr>]
   = (Some \<lparr>Directory = ''/tmp/shop'', Timeout = 10\<rparr>, None)"
  using newEnv_precedence [where name = "''production''" and dflt = example_default
      and b = "\<lparr>Directory = ''/srv/shop'', Timeout = 0\<rparr>"
      and ovs = "[\<lparr>Directory = [], Timeout = 10\<rparr>, \<lparr>Directory = ''/tmp/shop'', Timeout = 0\<rparr>,
        \<lparr>Directory = [], Timeout = 0\<rparr>]"]
  by (auto simp: precedence_def)

text \<open>
  C5. For a non-empty name: an override whose field is at the zero value leaves the
  field as the merge without that override gives it; a field that the base set keeps
  the base's value under one such override; a field that the base set is never zero
  in the merged Env, whatever the overrides; merging Timeout 30 with an override of
  Timeout 0 gives Timeout 30.
\<close>

theorem newEnv_zero_never_resets:
  assumes "name \<noteq> []"
  shows "(Timeout ov = 0 \<longrightarrow>
            (\<exists>e e'. newEnv dflt name b (ovs @ [ov]) = (Some e, None) \<and>
                     newEnv dflt name b ovs = (Some e', None) \<and> Timeout e = Timeout e'))
       \<and> (Directory ov = [] \<longrightarrow>
            (\<exists>e e'. newEnv dflt name b (ovs @ [ov]) = (Some e, None) \<and>
                     newEnv dflt name b ovs = (Some e', None) \<and> Directory e = Directory e'))
       \<and> (Timeout b \<noteq> 0 \<and> Timeout ov = 0 \<longrightarrow>
            (\<exists>e. newEnv dflt name b [ov] = (Some e, None) \<and> Timeout e = Timeout b))
       \<and> (Directory b \<noteq> [] \<and> Directory ov = [] \<longrightarrow>
            (\<exists>e. newEnv dflt name b [ov] = (Some e, None) \<and> Directory e = Directory b))
       \<and> (Timeout b \<noteq> 0 \<longrightarrow>
            (\<exists>e. newEnv dflt name b ovs = (Some e, None) \<and> Timeout e \<noteq> 0))
       \<and> (Directory b \<noteq> [] \<longrightarrow>
            (\<exists>e. newEnv dflt name b ovs = (Some e, None) \<and> Directory e \<noteq> []))
       \<and> (\<exists>e. newEnv dflt name \<lparr>Directory = [], Timeout = 30\<rparr>
                 [\<lparr>Directory = [], Timeout = 0\<rparr>] = (Some e, None) \<and> Timeout e = 30)"
  using assms foldl_override_keeps_Timeout [of b ovs] foldl_override_keeps_Directory [of b ovs]
  by (simp add: newEnv_def fillDefaults_def overrideEnv_def)

theorem newEnv_zero_never_resets_witness:
  "''production'' \<noteq> [] \<and>
   newEnv example_default ''production'' \<lparr>Directory = ''/srv/shop'', Timeout = 45\<rparr>
     [\<lparr>Directory = [], Timeout = 0\<rparr>]
   = (Some \<lparr>Directory = ''/srv/shop'', Timeout = 45\<rparr>, None)"
  using newEnv_zero_never_resets [where name = "''production''" and dflt = example_default
      and b = "\<lparr>Directory = ''/srv/shop'', Timeout = 45\<rparr>"
      and ov = "\<lparr>Directory = [], Timeout = 0\<rparr>" and ovs = "[]"]
  by auto


section \<open>Get\<close>

text \<open>
  C8. \<open>Get\<close> on a name that is no key fails with \<open>ErrEnvDoesNotExist\<close>; on a key whose
  value is nil it fails with \<open>ErrEnvNotDefined\<close>; on a key with a non-nil value it
  returns what the merge returns for the stored value under the chain of \<open>osEnv\<close>
  followed by the overrides, which for a non-empty name is a merged Env and no error.
  In every case the store after the call is the store before it.
\<close>

theorem Get_outcomes:
  "(map_of (Envs c) name = None \<longrightarrow>
      Get dflt c name overrides = (c, None, Some ErrEnvDoesNotExist))
   \<and> (map_of (Envs c) name = Some None \<longrightarrow>
      Get dflt c name overrides = (c, None, Some ErrEnvNotDefined))
   \<and> (\<forall>e. map_of (Envs c) name = Some (Some e) \<longrightarrow>
      Get dflt c name overrides = (c, newEnv dflt name e (osEnv c # overrides)))
   \<and> (\<forall>e. name \<noteq> [] \<and> map_of (Envs c) name = Some (Some e) \<longrightarrow>
      (\<exists>e'. Get dflt c name overrides = (c, Some e', None) \<and>
         Directory e' =
           precedence [] (Directory dflt) (Directory e) (map Directory (osEnv c # overrides)) \<and>
         Timeout e' =
           precedence 0 (Timeout dflt) (Timeout e) (map Timeout (osEnv c # overrides))))
   \<and> fst (Get dflt c name overrides) = c"
proof (intro conjI allI impI)
  show "map_of (Envs c) name = None \<Longrightarrow>
      Get dflt c name overrides = (c, None, Some ErrEnvDoesNotExist)"
    by (simp add: Get_def)
  show "map_of (Envs c) name = Some None \<Longrightarrow>
      Get dflt c name overrides = (c, None, Some ErrEnvNotDefined)"
    by (simp add: Get_def)
  show "map_of (Envs c) name = Some (Some e) \<Longrightarrow>
      Get dflt c name overrides = (c, newEnv dflt name e (osEnv c # overrides))" for e
    by (simp add: Get_def)
  show "fst (Get dflt c name overrides) = c"
    by (simp add: Get_def split: option.splits)
  fix e
  assume a: "name \<noteq> [] \<and> map_of (Envs c) name = Some (Some e)"
  let ?chain = "osEnv c # overrides"
  let ?e' = "fillDefaults dflt (foldl overrideEnv e ?chain)"
  from a have "newEnv dflt name e ?chain = (Some ?e', None)"
    by (simp only: newEnv_def if_False)
  with a have "Get dflt c name overrides = (c, Some ?e', None)"
    by (simp add: Get_def)
  moreover have "Directory ?e' =
      precedence [] (Directory dflt) (Directory e) (map Directory ?chain)"
    by (rule merged_Directory)
  moreover have "Timeout ?e' =
      precedence 0 (Timeout dflt) (Timeout e) (map Timeout ?chain)"
    by (rule merged_Timeout)
  ultimately show "\<exists>e'. Get dflt c name overrides = (c, Some e', None) \<and>
         Directory e' =
           precedence [] (Directory dflt) (Directory e) (map Directory (osEnv c # overrides)) \<and>
         Timeout e' =
           precedence 0 (Timeout dflt) (Timeout e) (map Timeout (osEnv c # overrides))"
    by blast
qed

theorem Get_outcomes_witness:
  "Get example_default example_store ''qa'' [] = (example_store, None, Some ErrEnvDoesNotExist)
   \<and> Get example_default example_store ''staging'' [] =
       (example_store, None, Some ErrEnvNotDefined)
   \<and> Get example_default example_store ''production'' [\<lparr>Directory = ''/tmp/shop'', Timeout = 0\<rparr>] =
       (example_store, Some \<lparr>Directory = ''/tmp/shop'', Timeout = 10\<rparr>, None)"
proof -
  have "map_of (Envs example_store) ''qa'' = None"
    by (simp add: example_store_def)
  then have qa: "Get example_default example_store ''qa'' [] =
      (example_store, None, Some ErrEnvDoesNotExist)"
    using Get_outcomes [where c = example_store and name = "''qa''"] by blast
  have "map_of (Envs example_store) ''staging'' = Some None"
    by (simp add: example_store_def)
  then have staging: "Get example_default example_store ''staging'' [] =
      (example_store, None, Some ErrEnvNotDefined)"
    using Get_outcomes [where c = example_store and name = "''staging''"] by blast
  have "map_of (Envs example_store) ''production'' =
      Some (Some \<lparr>Directory = ''/srv/shop'', Timeout = 0\<rparr>)"
    by (simp add: example_store_def)
  then have "Get example_default example_store ''production''
        [\<lparr>Directory = ''/tmp/shop'', Timeout = 0\<rparr>] =
      (example_store, newEnv example_default ''production''
         \<lparr>Directory = ''/srv/shop'', Timeout = 0\<rparr>
         (osEnv example_store # [\<lparr>Directory = ''/tmp/shop'', Timeout = 0\<rparr>]))"
    using Get_outcomes [where c = example_store and name = "''production''"] by blast
  then have production: "Get example_default example_store ''production''
        [\<lparr>Directory = ''/tmp/shop'', Timeout = 0\<rparr>] =
      (example_store, Some \<lparr>Directory = ''/tmp/shop'', Timeout = 10\<rparr>, None)"
    by (simp add: example_store_def newEnv_def fillDefaults_def overrideEnv_def)
  from qa staging production show ?thesis by simp
qed


section \<open>Validation of the store\<close>

lemma validate_loop_failures:
  "validate_loop ev m errors = errors @ failures ev m"
  by (induction m arbitrary: errors) (auto simp: failures_def split: option.splits)

lemma failures_filter:
  "failures ev (filter (\<lambda>(name, env). env \<noteq> None) m) = failures ev m"
  by (induction m) (auto simp: failures_def split: option.splits simp del: not_None_eq)

lemma failures_member:
  "(n, Some e) \<in> set m \<Longrightarrow> ev e = Some err \<Longrightarrow> Error err \<in> set (failures ev m)"
  by (force simp: failures_def)

lemma sublist_strings_Join:
  "x \<in> set xs \<Longrightarrow> sublist x (strings_Join xs sep)"
proof (induction xs sep rule: strings_Join.induct)
  case (1 sep)
  then show ?case by simp
next
  case (2 y sep)
  then show ?case by simp
next
  case (3 y z zs sep)
  show ?case
  proof (cases "x = y")
    case True
    then show ?thesis by simp
  next
    case False
    with 3 have "sublist x (strings_Join (z # zs) sep)" by simp
    then obtain ps ss where "strings_Join (z # zs) sep = ps @ x @ ss"
      by (auto simp: sublist_def)
    then have "strings_Join (y # z # zs) sep = (y @ sep @ ps) @ x @ ss" by simp
    then show ?thesis unfolding sublist_def by blast
  qed
qed

text \<open>
  C9. The store-level \<open>validate\<close> returns nil when no non-nil entry fails, and otherwise
  one error whose message is the text "invalid config " followed by the failure
  messages of all failing entries joined by a comma; removing the nil entries changes
  nothing; the message of every failing entry is a contiguous part of the message of
  the error.
\<close>

theorem validate_aggregates:
  "validate ev c =
     (if failures ev (Envs c) = [] then None
      else Some (Errorf (''invalid config '' @ strings_Join (failures ev (Envs c)) '','')))
   \<and> validate ev (c\<lparr>Envs := filter (\<lambda>(name, env). env \<noteq> None) (Envs c)\<rparr>) = validate ev c
   \<and> (\<forall>n e err. (n, Some e) \<in> set (Envs c) \<and> ev e = Some err \<longrightarrow>
         (\<exists>msg. validate ev c = Some (Errorf msg) \<and> sublist (Error err) msg))"
proof (intro conjI allI impI)
  show first: "validate ev c =
     (if failures ev (Envs c) = [] then None
      else Some (Errorf (''invalid config '' @ strings_Join (failures ev (Envs c)) '','')))"
    by (simp add: validate_def validate_loop_failures)
  show "validate ev (c\<lparr>Envs := filter (\<lambda>(name, env). env \<noteq> None) (Envs c)\<rparr>) = validate ev c"
    by (simp add: validate_def validate_loop_failures failures_filter del: not_None_eq)
  fix n e err
  assume a: "(n, Some e) \<in> set (Envs c) \<and> ev e = Some err"
  then have mem: "Error err \<in> set (failures ev (Envs c))"
    by (blast intro: failures_member)
  then have "sublist (Error err) (strings_Join (failures ev (Envs c)) '','')"
    by (rule sublist_strings_Join)
  then obtain ps ss where "strings_Join (failures ev (Envs c)) '','' = ps @ Error err @ ss"
    by (auto simp: sublist_def)
  then have "sublist (Error err) (''invalid config '' @ strings_Join (failures ev (Envs c)) '','')"
    unfolding sublist_def by (metis append.assoc)
  moreover from mem have "failures ev (Envs c) \<noteq> []" by auto
  ultimately show "\<exists>msg. validate ev c = Some (Errorf msg) \<and> sublist (Error err) msg"
    using first by simp
qed

theorem validate_aggregates_witness:
  "validate example_validate
     \<lparr>Envs = [(''production'', Some \<lparr>Directory = [], Timeout = 30\<rparr>),
              (''staging'', None),
              (''development'', Some \<lparr>Directory = ''/srv/shop'', Timeout = - 1\<rparr>)],
      osEnv = \<lparr>Directory = [], Timeout = 0\<rparr>, path = ''config.yml''\<rparr>
   = Some (Errorf ''invalid config missing directory,negative timeout'')"
  using validate_aggregates [where ev = example_validate and
      c = "\<lparr>Envs = [(''production'', Some \<lparr>Directory = [], Timeout = 30\<rparr>),
              (''staging'', None),
              (''development'', Some \<lparr>Directory = ''/srv/shop'', Timeout = - 1\<rparr>)],
      osEnv = \<lparr>Directory = [], Timeout = 0\<rparr>, path = ''config.yml''\<rparr>"]
  by (simp add: failures_def example_validate_def)


section \<open>The pre-write pass of save\<close>

lemma save_loop_None:
  "save_loop dflt ((name, None) # rest) m = save_loop dflt rest (AList.delete name m)"
  by simp

lemma save_loop_Some:
  "save_loop dflt ((name, Some e) # rest) m =
     save_loop dflt rest (AList.update name (Some (suppressDefaults dflt e)) m)"
  by (cases e) (simp add: suppressDefaults_def Let_def)

declare save_loop.simps(2) [simp del]

lemma cleaned_Nil: "cleaned dflt [] = []"
  by (simp add: cleaned_def)

lemma cleaned_None: "cleaned dflt ((name, None) # rest) = cleaned dflt rest"
  by (simp add: cleaned_def)

lemma cleaned_Some:
  "cleaned dflt ((name, Some e) # rest) =
     (name, Some (suppressDefaults dflt e)) # cleaned dflt rest"
  by (simp add: cleaned_def)

lemma update_at:
  "k \<notin> fst ` set pre \<Longrightarrow> AList.update k v (pre @ (k, v0) # rest) = pre @ (k, v) # rest"
  by (induction pre) auto

lemma delete_at:
  "k \<notin> fst ` set pre \<Longrightarrow> k \<notin> fst ` set rest \<Longrightarrow>
     AList.delete k (pre @ (k, v0) # rest) = pre @ rest"
  by (induction pre) auto

lemma save_loop_cleaned_gen:
  "distinct (map fst (pre @ rest)) \<Longrightarrow>
     save_loop dflt rest (pre @ rest) = pre @ cleaned dflt rest"
proof (induction rest arbitrary: pre)
  case Nil
  show ?case by (simp add: cleaned_Nil)
next
  case (Cons entry rest)
  obtain name env where entry: "entry = (name, env)" by (cases entry)
  from Cons.prems entry have notin: "name \<notin> fst ` set pre" "name \<notin> fst ` set rest"
    by auto
  show ?case
  proof (cases env)
    case None
    from Cons.prems entry have "distinct (map fst (pre @ rest))" by simp
    then have "save_loop dflt rest (pre @ rest) = pre @ cleaned dflt rest"
      by (rule Cons.IH)
    with None entry notin show ?thesis
      by (simp add: delete_at cleaned_None save_loop_None)
  next
    case (Some e)
    let ?e = "suppressDefaults dflt e"
    from Cons.prems entry have "distinct (map fst ((pre @ [(name, Some ?e)]) @ rest))" by simp
    then have "save_loop dflt rest ((pre @ [(name, Some ?e)]) @ rest) =
        (pre @ [(name, Some ?e)]) @ cleaned dflt rest"
      by (rule Cons.IH)
    with Some entry notin show ?thesis
      by (simp add: update_at cleaned_Some save_loop_Some)
  qed
qed

lemma save_loop_cleaned:
  "distinct (map fst m) \<Longrightarrow> save_loop dflt m m = cleaned dflt m"
  using save_loop_cleaned_gen [of "[]" m dflt] by simp

lemma cleaned_keys:
  "map fst (cleaned dflt m) = map fst (filter (\<lambda>(name, env). env \<noteq> None) m)"
  by (simp add: cleaned_def case_prod_unfold del: not_None_eq)

lemma cleaned_keys_subset: "fst ` set (cleaned dflt m) \<subseteq> fst ` set m"
  by (force simp: cleaned_def)

lemma map_of_cleaned:
  "distinct (map fst m) \<Longrightarrow>
     map_of (cleaned dflt m) name =
       (case map_of m name of
          Some (Some e) \<Rightarrow> Some (Some (suppressDefaults dflt e))
        | _ \<Rightarrow> None)"
proof (induction m)
  case Nil
  show ?case by (simp add: cleaned_Nil)
next
  case (Cons entry m)
  obtain k env where entry: "entry = (k, env)" by (cases entry)
  from Cons.prems entry have k: "k \<notin> fst ` set m" and d: "distinct (map fst m)" by auto
  from k cleaned_keys_subset [of dflt m] have "k \<notin> fst ` set (cleaned dflt m)" by blast
  then have none: "map_of (cleaned dflt m) k = None" by (simp add: map_of_eq_None_iff)
  from k have none': "map_of m k = None" by (simp add: map_of_eq_None_iff)
  show ?case
  proof (cases env)
    case None
    with entry Cons.IH [OF d] none none' show ?thesis by (simp add: cleaned_None)
  next
    case (Some e)
    with entry Cons.IH [OF d] show ?thesis by (simp add: cleaned_Some)
  qed
qed

lemma save_result:
  "distinct (map fst (Envs c)) \<Longrightarrow>
   save dflt ym wr c w =
     (if cleaned dflt (Envs c) = []
      then (c\<lparr>Envs := cleaned dflt (Envs c)\<rparr>, w, Some ErrNoEnvironmentsDefined)
      else
        (case ym (cleaned dflt (Envs c)) of
           Inl msg \<Rightarrow> (c\<lparr>Envs := cleaned dflt (Envs c)\<rparr>, w, Some (ExternalError msg))
         | Inr bytes \<Rightarrow>
             (c\<lparr>Envs := cleaned dflt (Envs c)\<rparr>, fst (wr bytes w),
              map_option ExternalError (snd (wr bytes w)))))"
  by (simp add: save_def save_loop_cleaned Let_def split: sum.splits prod.splits)

text \<open>
  C6. On a store with one entry per key, \<open>save\<close> leaves in the store the map without
  its nil entries and with every field of every other entry that equals the default's
  reset to the zero value; that map is what is handed to the encoder, before anything
  is written; the store holds it after the call on every path, also when \<open>save\<close>
  fails.
\<close>

theorem save_prewrite_pass:
  assumes "distinct (map fst (Envs c))"
  shows "save dflt ym wr c w =
     (if cleaned dflt (Envs c) = []
      then (c\<lparr>Envs := cleaned dflt (Envs c)\<rparr>, w, Some ErrNoEnvironmentsDefined)
      else
        (case ym (cleaned dflt (Envs c)) of
           Inl msg \<Rightarrow> (c\<lparr>Envs := cleaned dflt (Envs c)\<rparr>, w, Some (ExternalError msg))
         | Inr bytes \<Rightarrow>
             (c\<lparr>Envs := cleaned dflt (Envs c)\<rparr>, fst (wr bytes w),
              map_option ExternalError (snd (wr bytes w)))))
     \<and> (\<forall>name. map_of (cleaned dflt (Envs c)) name =
           (case map_of (Envs c) name of
              Some (Some e) \<Rightarrow>
                Some (Some \<lparr>Directory = (if Directory e = Directory dflt then [] else Directory e),
                            Timeout = (if Timeout e = Timeout dflt then 0 else Timeout e)\<rparr>)
            | _ \<Rightarrow> None))"
  using assms save_result [of c dflt ym wr w] map_of_cleaned [of "Envs c" dflt]
  by (simp add: suppressDefaults_def split: option.splits)

theorem save_prewrite_pass_witness:
  "save example_default example_Marshal buffer_Write example_store []
     = (example_store\<lparr>Envs := [(''production'', Some \<lparr>Directory = ''/srv/shop'', Timeout = 0\<rparr>),
                                 (''development'', Some \<lparr>Directory = [], Timeout = 0\<rparr>)]\<rparr>,
        example_yaml, None)"
  using save_prewrite_pass [where c = example_store and dflt = example_default
      and ym = example_Marshal and wr = buffer_Write and w = "[]"]
  by (simp add: example_store_def example_default_def example_Marshal_def cleaned_def
      suppressDefaults_def buffer_Write_def)


lemma map_of_cleaned_Some:
  "map_of m name = Some (Some e) \<Longrightarrow>
     map_of (cleaned dflt m) name = Some (Some (suppressDefaults dflt e))"
proof (induction m)
  case Nil
  then show ?case by simp
next
  case (Cons entry m)
  obtain k env where entry: "entry = (k, env)" by (cases entry)
  show ?case
  proof (cases "k = name")
    case True
    with Cons.prems entry have "env = Some e" by simp
    with True entry show ?thesis by (simp add: cleaned_Some)
  next
    case False
    with Cons.prems entry have "map_of m name = Some (Some e)" by simp
    then have "map_of (cleaned dflt m) name = Some (Some (suppressDefaults dflt e))"
      by (rule Cons.IH)
    with False entry show ?thesis by (cases env) (simp_all add: cleaned_None cleaned_Some)
  qed
qed

lemma Save_result:
  "distinct (map fst (Envs c)) \<Longrightarrow>
   Save dflt ym openFile writeFile closeFile c fs =
     (case openFile fs (path c) of
        (fs1, Inl msg) \<Rightarrow> (c, fs1, Some (ExternalError msg))
      | (fs1, Inr h) \<Rightarrow>
          (if cleaned dflt (Envs c) = []
           then (c\<lparr>Envs := cleaned dflt (Envs c)\<rparr>, closeFile h fs1,
                 Some ErrNoEnvironmentsDefined)
           else
             (case ym (cleaned dflt (Envs c)) of
                Inl msg \<Rightarrow>
                  (c\<lparr>Envs := cleaned dflt (Envs c)\<rparr>, closeFile h fs1,
                   Some (ExternalError msg))
              | Inr bytes \<Rightarrow>
                  (c\<lparr>Envs := cleaned dflt (Envs c)\<rparr>,
                   closeFile h (fst (writeFile h bytes fs1)),
                   map_option ExternalError (snd (writeFile h bytes fs1))))))"
  by (simp add: Save_def save_result split: prod.splits sum.splits)

lemma example_open:
  assumes "CHR ''/'' \<notin> set p" and "p \<noteq> []" and "p \<noteq> ''.''" and "p \<noteq> ''..''"
    and "fs p \<noteq> Some DirectoryNode"
  shows "os_OpenFile fs p = (fs(p \<mapsto> RegularFile []), Inr p)"
  using assms(5)
  by (simp add: os_OpenFile_def lookup_path_simple [OF assms(1,2,3,4)]
      split: option.splits node.splits)

text \<open>
  C10. On a store with one entry per key that holds, under some name, a non-nil Env
  whose fields all equal the default's: neither \<open>save\<close> nor \<open>Save\<close> returns
  \<open>ErrNoEnvironmentsDefined\<close>; after the pass the keys of the store are the keys that
  had a non-nil value, in the same order; the name is still a key, and its Env has
  every field at the zero value; that map is the one encoded. When the encoder returns
  bytes, \<open>save\<close> hands them to the writer, and \<open>Save\<close>, when the file could be opened,
  hands them to \<open>Write\<close> on the opened file and closes it; when the file could not be
  opened, \<open>Save\<close> returns the error of the open and leaves the store as it was.
\<close>

theorem save_keeps_default_valued_env:
  assumes "distinct (map fst (Envs c))"
    and "map_of (Envs c) name = Some (Some e)"
    and "Directory e = Directory dflt"
    and "Timeout e = Timeout dflt"
  shows "snd (snd (save dflt ym wr c w)) \<noteq> Some ErrNoEnvironmentsDefined
     \<and> snd (snd (Save dflt ym openFile writeFile closeFile c fs)) \<noteq> Some ErrNoEnvironmentsDefined
     \<and> map fst (Envs (fst (save dflt ym wr c w))) =
         map fst (filter (\<lambda>(n, env). env \<noteq> None) (Envs c))
     \<and> map_of (Envs (fst (save dflt ym wr c w))) name =
         Some (Some \<lparr>Directory = [], Timeout = 0\<rparr>)
     \<and> (\<forall>bytes. ym (Envs (fst (save dflt ym wr c w))) = Inr bytes \<longrightarrow>
           save dflt ym wr c w =
             (fst (save dflt ym wr c w), fst (wr bytes w),
              map_option ExternalError (snd (wr bytes w))))
     \<and> (\<forall>bytes fs1 h. ym (Envs (fst (save dflt ym wr c w))) = Inr bytes \<and>
                 openFile fs (path c) = (fs1, Inr h) \<longrightarrow>
           Save dflt ym openFile writeFile closeFile c fs =
             (fst (save dflt ym wr c w), closeFile h (fst (writeFile h bytes fs1)),
              map_option ExternalError (snd (writeFile h bytes fs1))))
     \<and> (\<forall>fs1 msg. openFile fs (path c) = (fs1, Inl msg) \<longrightarrow>
           Save dflt ym openFile writeFile closeFile c fs = (c, fs1, Some (ExternalError msg)))"
proof -
  let ?m = "cleaned dflt (Envs c)"
  have entry: "map_of ?m name = Some (Some \<lparr>Directory = [], Timeout = 0\<rparr>)"
    using map_of_cleaned_Some [OF assms(2), of dflt] assms(3,4)
    by (simp add: suppressDefaults_def)
  then have nonempty: "?m \<noteq> []" by auto
  have sv: "save dflt ym wr c w =
      (case ym ?m of
         Inl msg \<Rightarrow> (c\<lparr>Envs := ?m\<rparr>, w, Some (ExternalError msg))
       | Inr bytes \<Rightarrow>
           (c\<lparr>Envs := ?m\<rparr>, fst (wr bytes w), map_option ExternalError (snd (wr bytes w))))"
    using save_result [OF assms(1), of dflt ym wr w] nonempty by simp
  have Sv: "Save dflt ym openFile writeFile closeFile c fs =
      (case openFile fs (path c) of
         (fs1, Inl msg) \<Rightarrow> (c, fs1, Some (ExternalError msg))
       | (fs1, Inr h) \<Rightarrow>
           (case ym ?m of
              Inl msg \<Rightarrow> (c\<lparr>Envs := ?m\<rparr>, closeFile h fs1, Some (ExternalError msg))
            | Inr bytes \<Rightarrow>
                (c\<lparr>Envs := ?m\<rparr>, closeFile h (fst (writeFile h bytes fs1)),
                 map_option ExternalError (snd (writeFile h bytes fs1)))))"
    using Save_result [OF assms(1), of dflt ym openFile writeFile closeFile fs] nonempty
    by (simp split: prod.splits sum.splits)
  have fst_sv: "fst (save dflt ym wr c w) = c\<lparr>Envs := ?m\<rparr>"
    unfolding sv by (simp split: sum.splits)
  have c1: "snd (snd (save dflt ym wr c w)) \<noteq> Some ErrNoEnvironmentsDefined"
    unfolding sv by (cases "ym ?m") (auto simp: map_option_case split: option.splits)
  have c2: "snd (snd (Save dflt ym openFile writeFile closeFile c fs)) \<noteq>
      Some ErrNoEnvironmentsDefined"
  proof -
    obtain fs1 r where op: "openFile fs (path c) = (fs1, r)"
      by (cases "openFile fs (path c)")
    show ?thesis
    proof (cases r)
      case (Inl msg)
      with op show ?thesis unfolding Sv by simp
    next
      case (Inr h)
      with op show ?thesis unfolding Sv
        by (cases "ym ?m") (auto simp: map_option_case split: option.splits)
    qed
  qed
  have c3: "map fst (Envs (fst (save dflt ym wr c w))) =
         map fst (filter (\<lambda>(n, env). env \<noteq> None) (Envs c))"
    unfolding fst_sv by (simp add: cleaned_keys del: not_None_eq)
  have c4: "map_of (Envs (fst (save dflt ym wr c w))) name =
         Some (Some \<lparr>Directory = [], Timeout = 0\<rparr>)"
    unfolding fst_sv using entry by simp
  have c5: "\<forall>bytes. ym (Envs (fst (save dflt ym wr c w))) = Inr bytes \<longrightarrow>
           save dflt ym wr c w =
             (fst (save dflt ym wr c w), fst (wr bytes w),
              map_option ExternalError (snd (wr bytes w)))"
    unfolding fst_sv by (simp add: sv)
  have c6: "\<forall>bytes fs1 h. ym (Envs (fst (save dflt ym wr c w))) = Inr bytes \<and>
                 openFile fs (path c) = (fs1, Inr h) \<longrightarrow>
           Save dflt ym openFile writeFile closeFile c fs =
             (fst (save dflt ym wr c w), closeFile h (fst (writeFile h bytes fs1)),
              map_option ExternalError (snd (writeFile h bytes fs1)))"
    unfolding fst_sv by (simp add: Sv)
  have c7: "\<forall>fs1 msg. openFile fs (path c) = (fs1, Inl msg) \<longrightarrow>
           Save dflt ym openFile writeFile closeFile c fs = (c, fs1, Some (ExternalError msg))"
    by (simp add: Sv)
  from c1 c2 c3 c4 c5 c6 c7 show ?thesis by blast
qed

theorem save_keeps_default_valued_env_witness:
  "Save example_default example_Marshal os_OpenFile file_Write file_Close
     example_store example_disk =
     (example_store\<lparr>Envs := [(''production'', Some \<lparr>Directory = ''/srv/shop'', Timeout = 0\<rparr>),
                              (''development'', Some \<lparr>Directory = [], Timeout = 0\<rparr>)]\<rparr>,
      example_disk(''config.yml'' \<mapsto> RegularFile example_yaml), None)"
proof -
  let ?fs1 = "example_disk(''config.yml'' \<mapsto> RegularFile [])"
  have sv: "save example_default example_Marshal buffer_Write example_store [] =
      (example_store\<lparr>Envs := [(''production'', Some \<lparr>Directory = ''/srv/shop'', Timeout = 0\<rparr>),
                               (''development'', Some \<lparr>Directory = [], Timeout = 0\<rparr>)]\<rparr>,
       example_yaml, None)"
    by (simp add: save_def save_loop_Some save_loop_None suppressDefaults_def
        example_store_def example_default_def example_Marshal_def buffer_Write_def)
  have h1: "distinct (map fst (Envs example_store))"
    by (simp add: example_store_def)
  have h2: "map_of (Envs example_store) ''development'' =
      Some (Some \<lparr>Directory = ''/home/dev/theme'', Timeout = 30\<rparr>)"
    by (simp add: example_store_def)
  have h3: "Directory \<lparr>Directory = ''/home/dev/theme'', Timeout = 30\<rparr> =
      Directory example_default"
    by (simp add: example_default_def)
  have h4: "Timeout \<lparr>Directory = ''/home/dev/theme'', Timeout = 30\<rparr> =
      Timeout example_default"
    by (simp add: example_default_def)
  have m: "example_Marshal
      (Envs (fst (save example_default example_Marshal buffer_Write example_store []))) =
      Inr example_yaml"
    by (simp add: sv example_Marshal_def)
  have p: "path example_store = ''config.yml''"
    by (simp add: example_store_def)
  have "os_OpenFile example_disk ''config.yml'' = (?fs1, Inr ''config.yml'')"
    by (rule example_open) (simp_all add: example_disk_def)
  then have d: "os_OpenFile example_disk (path example_store) = (?fs1, Inr ''config.yml'')"
    by (simp only: p)
  have w: "file_Close ''config.yml'' (fst (file_Write ''config.yml'' example_yaml ?fs1)) =
      example_disk(''config.yml'' \<mapsto> RegularFile example_yaml)"
    "map_option ExternalError (snd (file_Write ''config.yml'' example_yaml ?fs1)) = None"
    by (simp_all add: file_Close_def file_Write_def)
  from save_keeps_default_valued_env [OF h1 h2 h3 h4, where ym = example_Marshal
      and wr = buffer_Write and w = "[]" and fs = example_disk and openFile = os_OpenFile
      and writeFile = file_Write and closeFile = file_Close]
  have "\<forall>bytes fs1 h. example_Marshal
        (Envs (fst (save example_default example_Marshal buffer_Write example_store []))) =
          Inr bytes \<and>
        os_OpenFile example_disk (path example_store) = (fs1, Inr h) \<longrightarrow>
      Save example_default example_Marshal os_OpenFile file_Write file_Close
          example_store example_disk =
        (fst (save example_default example_Marshal buffer_Write example_store []),
         file_Close h (fst (file_Write h bytes fs1)),
         map_option ExternalError (snd (file_Write h bytes fs1)))"
    by blast
  with m d have "Save example_default example_Marshal os_OpenFile file_Write file_Close
          example_store example_disk =
        (fst (save example_default example_Marshal buffer_Write example_store []),
         file_Close ''config.yml'' (fst (file_Write ''config.yml'' example_yaml ?fs1)),
         map_option ExternalError (snd (file_Write ''config.yml'' example_yaml ?fs1)))"
    by blast
  then show ?thesis by (simp only: sv w fst_conv)
qed

text \<open>
  C1. \<open>Save\<close> on the store whose only entry is nil returns \<open>ErrNoEnvironmentsDefined\<close>,
  and the configuration file that was on the disk is empty afterwards: line 121 has
  opened it with the truncate flag before line 145 looks at the map.
\<close>

theorem Save_truncates_before_empty_check:
  "example_disk ''config.yml'' = Some (RegularFile ''{production: {directory: /srv/shop}}'')
   \<and> Save example_default example_Marshal os_OpenFile file_Write file_Close
         example_nil_store example_disk =
       (example_nil_store\<lparr>Envs := []\<rparr>,
        example_disk(''config.yml'' \<mapsto> RegularFile []),
        Some ErrNoEnvironmentsDefined)"
proof -
  have "os_OpenFile example_disk ''config.yml'' =
      (example_disk(''config.yml'' \<mapsto> RegularFile []), Inr ''config.yml'')"
    by (rule example_open) (simp_all add: example_disk_def)
  then show ?thesis
    by (simp add: Save_def save_def save_loop_None file_Close_def example_disk_def
        example_nil_store_def)
qed


section \<open>Loading\<close>

lemma validate_New: "validate ev (New penv p) = None"
  by (simp add: validate_def New_def)

text \<open>
  C2, in the form that holds of the code. When the path resolves and reading the file fails, whatever the error
  is (that the file does not exist or anything else), \<open>Load\<close> returns the store that
  \<open>New\<close> built, with an empty \<open>Envs\<close>, and no error.
\<close>

theorem Load_ignores_read_error:
  assumes "searchConfigPath stat p = Inr (fp, ext)"
    and "readFile fp = Inl err"
  shows "Load penv stat readFile yu ju ev p = (New penv p, None)
     \<and> Envs (New penv p) = []"
proof
  show "Load penv stat readFile yu ju ev p = (New penv p, None)"
    using assms by (simp add: Load_def Let_def validate_New)
  show "Envs (New penv p) = []"
    by (simp add: New_def)
qed

theorem Load_ignores_read_error_witness:
  "searchConfigPath example_stat_found ''config.yml'' = Inr (''config.yml'', ''yml'')
   \<and> example_read_gone ''config.yml'' = Inl ErrNotExist
   \<and> Load (osEnv example_store) example_stat_found example_read_gone
        example_yaml_Unmarshal example_json_Unmarshal example_validate ''config.yml'' =
       (New (osEnv example_store) ''config.yml'', None)"
proof -
  have r: "searchConfigPath example_stat_found ''config.yml'' = Inr (''config.yml'', ''yml'')"
    by (simp add: searchConfigPath_def supportedExts_def search_exts_Cons filepath_Dir_def
        filepath_Base_def filepath_Ext_def filepath_Join_def filepath_Clean_def
        example_stat_found_def)
  have g: "example_read_gone ''config.yml'' = Inl ErrNotExist"
    by (simp add: example_read_gone_def)
  from Load_ignores_read_error [where stat = example_stat_found and p = "''config.yml''"
      and fp = "''config.yml''" and ext = "''yml''" and readFile = example_read_gone
      and err = ErrNotExist and penv = "osEnv example_store" and yu = example_yaml_Unmarshal
      and ju = example_json_Unmarshal and ev = example_validate] r g
  show ?thesis by simp
qed

text \<open>
  The sentence of the spec about other read errors does not hold: when the configured
  path is a directory, \<open>os.Stat\<close> finds it, reading it fails with an error that is not
  \<open>os.ErrNotExist\<close>, and \<open>Load\<close> returns no error.
\<close>

theorem Load_read_error_counterexample:
  "searchConfigPath (os_Stat example_dir_disk) ''config.yml'' = Inr (''config.yml'', ''yml'')
   \<and> ioutil_ReadFile example_dir_disk ''config.yml'' =
       Inl (ExternalError ''read config.yml: is a directory'')
   \<and> ExternalError ''read config.yml: is a directory'' \<noteq> ErrNotExist
   \<and> snd (Load (osEnv example_store) (os_Stat example_dir_disk)
        (ioutil_ReadFile example_dir_disk)
        example_yaml_Unmarshal example_json_Unmarshal example_validate ''config.yml'') = None"
proof -
  have r: "searchConfigPath (os_Stat example_dir_disk) ''config.yml'' =
      Inr (''config.yml'', ''yml'')"
    by (simp add: searchConfigPath_def supportedExts_def search_exts_Cons filepath_Dir_def
        filepath_Base_def filepath_Ext_def filepath_Join_def filepath_Clean_def
        os_Stat_def lookup_path_simple example_dir_disk_def)
  have g: "ioutil_ReadFile example_dir_disk ''config.yml'' =
      Inl (ExternalError ''read config.yml: is a directory'')"
    by (simp add: ioutil_ReadFile_def lookup_path_simple example_dir_disk_def)
  from r g show ?thesis by (simp add: Load_def Let_def validate_New)
qed


section \<open>Saving, then loading\<close>














end
